theory Spec2Isabelle
  imports Main "HOL-Library.AList"
begin

section \<open>Printer connections (utils/printer-pool.ts)\<close>

text \<open>
  The source of the pool is the second unit of \<open>src/utils/validation.ts\<close>, that of
  \<open>printToPrinter\<close> the third; line numbers are those of that file.

  Objects that the program shares by reference (pooled connections, the arrays held by the
  pool map) live in explicit stores indexed by a reference; \<open>new\<close> takes the next free
  reference. Everything the runtime decides (the clock, the fate of a connect or a write,
  the flags of a socket) is an argument of the operation that observes it.
\<close>

type_synonym ref = nat

text \<open>A JavaScript number that holds an integer; \<open>None\<close> is NaN.\<close>

type_synonym number = "int option"

text \<open>
  The payload of a job is the buffer that \<open>Buffer.from(text, 'base64')\<close> returns; it is
  passed through unread, so it is kept as the decoding of its text.
\<close>

datatype Buffer = Base64Decoded string

text \<open>
  A \<open>net.Socket\<close>: the two properties that the code reads, and the buffers that have been
  written through it.
\<close>

record Socket =
  destroyed :: bool
  writable :: bool
  written :: "Buffer list"

datatype Err =
    ConnectionTimeout string number
  | PrinterConnectionError string
  | SocketNotConnected
  | WriteError string
  | WaitTimeout "string \<times> number"
  | UnsupportedFormat string

text \<open>Class \<open>PrinterConnection\<close>; \<open>socket = None\<close> is \<open>null\<close>.\<close>

record PrinterConnection =
  socket :: "Socket option"
  printerIp :: string
  printerPort :: number
  connectionTimeout :: int

definition isConnected :: "PrinterConnection \<Rightarrow> bool" where
  "isConnected c =
     (case socket c of None \<Rightarrow> False | Some s \<Rightarrow> \<not> destroyed s \<and> writable s)"

text \<open>
  \<open>connect()\<close> runs in two parts. Up to the suspension it installs a new socket (whose flags
  while connecting are the runtime's, argument \<open>s0\<close>) unless one is already connected.
  It settles on the first of: the \<open>connect\<close> event, the timer, the \<open>error\<close> event. The
  handlers of the two events only resolve or reject and the timer destroys the socket that
  the field holds at that moment: none of them assigns the field, so a connection that was
  closed while connecting keeps \<open>socket = null\<close>. The flags of a socket that is still held
  are the runtime's: open on \<open>connect\<close>, destroyed on \<open>error\<close>.
\<close>

datatype ConnectOutcome = Connected | TimedOut | Failed string

definition connect_begin :: "PrinterConnection \<Rightarrow> Socket \<Rightarrow> PrinterConnection" where
  "connect_begin c s0 = (if socket c \<noteq> None \<and> isConnected c then c else c\<lparr>socket := Some s0\<rparr>)"

definition connect_settle ::
  "PrinterConnection \<Rightarrow> ConnectOutcome \<Rightarrow> Err option \<times> PrinterConnection" where
  "connect_settle c out =
     (case out of
        Connected \<Rightarrow>
          (None,
           (case socket c of
              None \<Rightarrow> c
            | Some s \<Rightarrow> c\<lparr>socket := Some (s\<lparr>destroyed := False, writable := True\<rparr>)\<rparr>))
      | TimedOut \<Rightarrow>
          (Some (ConnectionTimeout (printerIp c) (printerPort c)),
           (case socket c of
              None \<Rightarrow> c
            | Some s \<Rightarrow> if \<not> destroyed s
                        then c\<lparr>socket := Some (s\<lparr>destroyed := True, writable := False\<rparr>)\<rparr>
                        else c))
      | Failed msg \<Rightarrow>
          (Some (PrinterConnectionError msg),
           (case socket c of
              None \<Rightarrow> c
            | Some s \<Rightarrow> c\<lparr>socket := Some (s\<lparr>destroyed := True, writable := False\<rparr>)\<rparr>)))"

text \<open>
  \<open>send(data)\<close>: throws at once when there is no live socket; otherwise the buffer is
  written and the write callback reports success or an error. The runtime destroys a socket
  on which a write has failed; the code itself does not touch it.
\<close>

datatype WriteOutcome = Written | WriteFailed string

definition send ::
  "PrinterConnection \<Rightarrow> Buffer \<Rightarrow> WriteOutcome \<Rightarrow> Err option \<times> PrinterConnection" where
  "send c data out =
     (case socket c of
        None \<Rightarrow> (Some SocketNotConnected, c)
      | Some s \<Rightarrow>
          if destroyed s then (Some SocketNotConnected, c)
          else (case out of
                  Written \<Rightarrow> (None, c\<lparr>socket := Some (s\<lparr>written := written s @ [data]\<rparr>)\<rparr>)
                | WriteFailed msg \<Rightarrow>
                    (Some (WriteError msg),
                     c\<lparr>socket := Some (s\<lparr>destroyed := True, writable := False\<rparr>)\<rparr>)))"

text \<open>\<open>close()\<close> ends a live socket and always sets the field to \<open>null\<close>.\<close>

definition close :: "PrinterConnection \<Rightarrow> PrinterConnection" where
  "close c = c\<lparr>socket := None\<rparr>"

subsection \<open>Class PooledConnection\<close>

text \<open>
  The pool key is the template string \<open>ip:port\<close>; as the port is a number, two keys are
  equal exactly when both parts are, so the key is kept as the pair.
\<close>

type_synonym poolKey = "string \<times> number"

definition mkPoolKey :: "string \<Rightarrow> number \<Rightarrow> poolKey" where
  "mkPoolKey ip port = (ip, port)"

record PooledConnection =
  connection :: PrinterConnection
  poolKey :: poolKey
  inUse :: bool
  lastUsed :: int
  maxIdleTime :: int

definition newPooledConnection ::
  "PrinterConnection \<Rightarrow> poolKey \<Rightarrow> int \<Rightarrow> int \<Rightarrow> PooledConnection" where
  "newPooledConnection c key idle now =
     \<lparr>connection = c, poolKey = key, inUse = False, lastUsed = now, maxIdleTime = idle\<rparr>"

definition markInUse :: "int \<Rightarrow> PooledConnection \<Rightarrow> PooledConnection" where
  "markInUse now pc = pc\<lparr>inUse := True, lastUsed := now\<rparr>"

definition release :: "int \<Rightarrow> PooledConnection \<Rightarrow> PooledConnection" where
  "release now pc = pc\<lparr>inUse := False, lastUsed := now\<rparr>"

definition isAvailable :: "PooledConnection \<Rightarrow> bool" where
  "isAvailable pc =
     (if inUse pc then False
      else if \<not> isConnected (connection pc) then False
      else True)"

subsection \<open>Class PrinterConnectionPool\<close>

text \<open>
  \<open>pools\<close> is the \<open>Map\<close> from key to array, in insertion order; its values are references
  into \<open>arrays\<close>, whose elements are references into \<open>conns\<close>.
\<close>

record PrinterConnectionPool =
  conns :: "ref \<Rightarrow> PooledConnection"
  nextConn :: ref
  arrays :: "ref \<Rightarrow> ref list"
  nextArray :: ref
  pools :: "(poolKey \<times> ref) list"
  maxConnectionsPerPrinter :: nat
  poolConnectionTimeout :: int
  poolMaxIdleTime :: int

definition newPrinterConnectionPool :: "nat \<Rightarrow> int \<Rightarrow> int \<Rightarrow> PrinterConnectionPool" where
  "newPrinterConnectionPool maxConn timeout idle =
     \<lparr>conns = (\<lambda>_. newPooledConnection
                 \<lparr>socket = None, printerIp = [], printerPort = None, connectionTimeout = 0\<rparr>
                 ([], None) 0 0),
      nextConn = 0, arrays = (\<lambda>_. []), nextArray = 0, pools = [],
      maxConnectionsPerPrinter = maxConn, poolConnectionTimeout = timeout,
      poolMaxIdleTime = idle\<rparr>"

text \<open>Lines 259-264 of \<open>acquireConnection\<close>: look the array up, create and register it if absent.\<close>

definition getPool :: "PrinterConnectionPool \<Rightarrow> poolKey \<Rightarrow> PrinterConnectionPool \<times> ref" where
  "getPool p key =
     (case map_of (pools p) key of
        Some a \<Rightarrow> (p, a)
      | None \<Rightarrow>
          (p\<lparr>arrays := (arrays p)(nextArray p := []),
             nextArray := Suc (nextArray p),
             pools := AList.update key (nextArray p) (pools p)\<rparr>,
           nextArray p))"

definition findAvailable :: "PrinterConnectionPool \<Rightarrow> ref \<Rightarrow> ref option" where
  "findAvailable p a = find (\<lambda>r. isAvailable (conns p r)) (arrays p a)"

definition markRef :: "PrinterConnectionPool \<Rightarrow> ref \<Rightarrow> int \<Rightarrow> PrinterConnectionPool" where
  "markRef p r now = p\<lparr>conns := (conns p)(r := markInUse now (conns p r))\<rparr>"

definition releaseRef :: "PrinterConnectionPool \<Rightarrow> ref \<Rightarrow> int \<Rightarrow> PrinterConnectionPool" where
  "releaseRef p r now = p\<lparr>conns := (conns p)(r := release now (conns p r))\<rparr>"

text \<open>
  \<open>acquireConnection\<close> up to its first suspension (lines 258-287): it returns a reused
  connection, or hands over to \<open>waitForAvailableConnection\<close> on the array it holds, or has
  pushed a new connection and awaits its connect.
\<close>

datatype AcquireStep = Reused ref | Saturated ref | Connecting ref ref

definition acquire_begin ::
  "PrinterConnectionPool \<Rightarrow> string \<Rightarrow> number \<Rightarrow> int \<Rightarrow> Socket \<Rightarrow>
   PrinterConnectionPool \<times> AcquireStep" where
  "acquire_begin p ip port now s0 =
     (let key = mkPoolKey ip port;
          p1 = fst (getPool p key);
          a = snd (getPool p key)
      in case findAvailable p1 a of
           Some r \<Rightarrow> (markRef p1 r now, Reused r)
         | None \<Rightarrow>
             if length (arrays p1 a) \<ge> maxConnectionsPerPrinter p1 then (p1, Saturated a)
             else
               let r = nextConn p1;
                   c = \<lparr>socket = None, printerIp = ip, printerPort = port,
                        connectionTimeout = poolConnectionTimeout p1\<rparr>;
                   pc = newPooledConnection c key (poolMaxIdleTime p1) now
               in (p1\<lparr>conns := (conns p1)(r := pc\<lparr>connection := connect_begin c s0\<rparr>),
                      nextConn := Suc r,
                      arrays := (arrays p1)(a := arrays p1 a @ [r])\<rparr>,
                   Connecting a r))"

text \<open>
  The rest of \<open>acquireConnection\<close> (lines 287-298), run when the connect of connection \<open>r\<close>,
  pushed on array \<open>a\<close>, settles: on success the connection is marked in use and returned, on
  failure its first occurrence is spliced out of that array and the error rethrown.
\<close>

definition setConnection ::
  "PrinterConnectionPool \<Rightarrow> ref \<Rightarrow> PrinterConnection \<Rightarrow> PrinterConnectionPool" where
  "setConnection p r c = p\<lparr>conns := (conns p)(r := (conns p r)\<lparr>connection := c\<rparr>)\<rparr>"

definition acquire_settle ::
  "PrinterConnectionPool \<Rightarrow> ref \<Rightarrow> ref \<Rightarrow> ConnectOutcome \<Rightarrow> int \<Rightarrow>
   PrinterConnectionPool \<times> (Err + ref)" where
  "acquire_settle p a r out now =
     (let res = connect_settle (connection (conns p r)) out;
          p1 = setConnection p r (snd res)
      in case fst res of
           None \<Rightarrow> (markRef p1 r now, Inr r)
         | Some e \<Rightarrow> (p1\<lparr>arrays := (arrays p1)(a := remove1 r (arrays p1 a))\<rparr>, Inl e))"

text \<open>
  \<open>waitForAvailableConnection\<close> (lines 304-323) arms a 10 second timer and a 100 ms
  interval and returns a pending promise. The record holds the key of the message, the
  array the closure captured, which of the two timers can still fire and the promise: a
  promise keeps its first settlement, later ones are ignored.
\<close>

record Waiter =
  waitKey :: poolKey
  waitPool :: ref
  timeoutPending :: bool
  intervalActive :: bool
  settled :: "(Err + ref) option"

definition waitForAvailableConnection :: "poolKey \<Rightarrow> ref \<Rightarrow> Waiter" where
  "waitForAvailableConnection key a =
     \<lparr>waitKey = key, waitPool = a, timeoutPending = True, intervalActive = True,
      settled = None\<rparr>"

definition settle :: "Err + ref \<Rightarrow> Waiter \<Rightarrow> Waiter" where
  "settle v w = (if settled w = None then w\<lparr>settled := Some v\<rparr> else w)"

text \<open>The timer callback (lines 309-311); a timer fires once, and only if not cleared.\<close>

definition wait_timeout :: "Waiter \<Rightarrow> Waiter" where
  "wait_timeout w =
     (if timeoutPending w
      then settle (Inl (WaitTimeout (waitKey w))) (w\<lparr>timeoutPending := False\<rparr>)
      else w)"

text \<open>The interval callback (lines 313-321); it fires as long as the interval is not cleared.\<close>

definition wait_interval ::
  "PrinterConnectionPool \<Rightarrow> Waiter \<Rightarrow> int \<Rightarrow> PrinterConnectionPool \<times> Waiter" where
  "wait_interval p w now =
     (if intervalActive w
      then (case findAvailable p (waitPool w) of
              Some r \<Rightarrow>
                (markRef p r now,
                 settle (Inr r) (w\<lparr>timeoutPending := False, intervalActive := False\<rparr>))
            | None \<Rightarrow> (p, w))
      else (p, w))"

text \<open>
  \<open>cleanupIdleConnections\<close> (lines 328-352). The inner loop closes the connections that
  are available and idle for too long and collects the others; the entry is then deleted
  or set to the new array.
\<close>

fun cleanupLoop ::
  "(ref \<Rightarrow> PooledConnection) \<Rightarrow> int \<Rightarrow> int \<Rightarrow> ref list \<Rightarrow> ref list \<Rightarrow>
   (ref \<Rightarrow> PooledConnection) \<times> ref list" where
  "cleanupLoop cs now idle [] active = (cs, active)"
| "cleanupLoop cs now idle (r # rs) active =
     (if isAvailable (cs r) \<and> now - lastUsed (cs r) > idle
      then cleanupLoop (cs(r := (cs r)\<lparr>connection := close (connection (cs r))\<rparr>)) now idle rs active
      else cleanupLoop cs now idle rs (active @ [r]))"

definition cleanupEntry ::
  "int \<Rightarrow> PrinterConnectionPool \<Rightarrow> poolKey \<times> ref \<Rightarrow> PrinterConnectionPool" where
  "cleanupEntry now p e =
     (let res = cleanupLoop (conns p) now (poolMaxIdleTime p) (arrays p (snd e)) []
      in if length (snd res) = 0
         then p\<lparr>conns := fst res, pools := AList.delete (fst e) (pools p)\<rparr>
         else p\<lparr>conns := fst res,
                arrays := (arrays p)(nextArray p := snd res),
                nextArray := Suc (nextArray p),
                pools := AList.update (fst e) (nextArray p) (pools p)\<rparr>)"

definition cleanupIdleConnections :: "PrinterConnectionPool \<Rightarrow> int \<Rightarrow> PrinterConnectionPool" where
  "cleanupIdleConnections p now = foldl (cleanupEntry now) p (pools p)"

text \<open>\<open>getStats\<close> (lines 357-394).\<close>

record PoolStat =
  printer :: poolKey
  connections :: nat
  available :: nat
  inUseCount :: nat

record Stats =
  totalPools :: nat
  totalConnections :: nat
  poolStats :: "PoolStat list"

fun statsLoop ::
  "PrinterConnectionPool \<Rightarrow> (poolKey \<times> ref) list \<Rightarrow> nat \<Rightarrow> PoolStat list \<Rightarrow> nat \<times> PoolStat list" where
  "statsLoop p [] n acc = (n, acc)"
| "statsLoop p (e # es) n acc =
     (let pool = arrays p (snd e);
          avail = length (filter (\<lambda>r. isAvailable (conns p r)) pool);
          used = length pool - avail
      in statsLoop p es (n + length pool)
           (acc @ [\<lparr>printer = fst e, connections = length pool, available = avail,
                    inUseCount = used\<rparr>]))"

definition getStats :: "PrinterConnectionPool \<Rightarrow> Stats" where
  "getStats p =
     (let res = statsLoop p (pools p) 0 []
      in \<lparr>totalPools = length (pools p), totalConnections = fst res, poolStats = snd res\<rparr>)"

text \<open>
  The pool as the tasks of the event loop see it. Each action is one of the segments that
  run without suspension: the synchronous part of an acquire, the settlement of a pending
  connect, a release, the completion of a send, a poll of a waiting acquire (also of one
  whose timer has fired: its interval goes on), a run of the cleanup, and a change of a
  socket's flags by the runtime. A sequence of actions is an interleaving of any number of
  concurrent acquirers, senders and cleanups.
\<close>

datatype Action =
    Acquire string number int Socket
  | Settle ref ref ConnectOutcome int
  | Release ref int
  | Send ref Buffer WriteOutcome
  | Poll Waiter int
  | Cleanup int
  | SocketChange ref Socket

fun poolStep :: "PrinterConnectionPool \<Rightarrow> Action \<Rightarrow> PrinterConnectionPool" where
  "poolStep p (Acquire ip port now s0) = fst (acquire_begin p ip port now s0)"
| "poolStep p (Settle a r out now) = fst (acquire_settle p a r out now)"
| "poolStep p (Release r now) = releaseRef p r now"
| "poolStep p (Send r data out) = setConnection p r (snd (send (connection (conns p r)) data out))"
| "poolStep p (Poll w now) = fst (wait_interval p w now)"
| "poolStep p (Cleanup now) = cleanupIdleConnections p now"
| "poolStep p (SocketChange r s) =
     setConnection p r ((connection (conns p r))\<lparr>socket := Some s\<rparr>)"

text \<open>
  The wait of an acquire on a saturated entry, from the call of
  \<open>waitForAvailableConnection\<close> to the settlement of its promise. The events are what
  runs before the 10 second timer fires: firings of the interval (with the clock) and steps
  of the other tasks. A firing that finds an available connection marks it in use and
  resolves; when the events are used up the timer fires and rejects.
\<close>

datatype WaitEvent = Tick int | Step Action

fun waitForAvailableConnection_run ::
  "PrinterConnectionPool \<Rightarrow> poolKey \<Rightarrow> ref \<Rightarrow> WaitEvent list \<Rightarrow>
   PrinterConnectionPool \<times> (Err + ref)" where
  "waitForAvailableConnection_run p key a [] = (p, Inl (WaitTimeout key))"
| "waitForAvailableConnection_run p key a (Tick now # evs) =
     (case findAvailable p a of
        Some r \<Rightarrow> (markRef p r now, Inr r)
      | None \<Rightarrow> waitForAvailableConnection_run p key a evs)"
| "waitForAvailableConnection_run p key a (Step act # evs) =
     waitForAvailableConnection_run (poolStep p act) key a evs"

section \<open>Printing through the pool (utils/printer.ts)\<close>

text \<open>
  One run of a print. What the runtime decides during the run is collected in a record:
  the clock at each step, the socket while it connects, the fate of the connect and of the
  write, and, for an acquire that has to wait on a saturated entry, what happens until
  its promise settles.
\<close>

record PrintEnv =
  tAcquire :: int
  connectingSocket :: Socket
  connectOutcome :: ConnectOutcome
  tConnected :: int
  waitEvents :: "WaitEvent list"
  writeOutcome :: WriteOutcome
  tRelease :: int

definition acquireConnection ::
  "PrinterConnectionPool \<Rightarrow> string \<Rightarrow> number \<Rightarrow> PrintEnv \<Rightarrow>
   PrinterConnectionPool \<times> (Err + ref)" where
  "acquireConnection p ip port env =
     (case acquire_begin p ip port (tAcquire env) (connectingSocket env) of
        (p1, Reused r) \<Rightarrow> (p1, Inr r)
      | (p1, Saturated a) \<Rightarrow>
          waitForAvailableConnection_run p1 (mkPoolKey ip port) a (waitEvents env)
      | (p1, Connecting a r) \<Rightarrow> acquire_settle p1 a r (connectOutcome env) (tConnected env))"

text \<open>
  \<open>printToPrinter\<close> (lines 531-566): the result is the pool and the error thrown, if any.
  When the acquire fails there is no connection to release; after the send the connection
  is released on both paths, and the error of a failed send is rethrown.
\<close>

definition printToPrinter ::
  "PrinterConnectionPool \<Rightarrow> string \<Rightarrow> number \<Rightarrow> Buffer \<Rightarrow> PrintEnv \<Rightarrow>
   PrinterConnectionPool \<times> Err option" where
  "printToPrinter p ip port data env =
     (case acquireConnection p ip port env of
        (p1, Inl e) \<Rightarrow> (p1, Some e)
      | (p1, Inr r) \<Rightarrow>
          (let res = send (connection (conns p1 r)) data (writeOutcome env);
               p2 = setConnection p1 r (snd res)
           in case fst res of
                None \<Rightarrow> (releaseRef p2 r (tRelease env), None)
              | Some e \<Rightarrow> (releaseRef p2 r (tRelease env), Some e)))"

section \<open>Job counters (services/state.service.ts)\<close>

text \<open>
  Class \<open>StateService\<close> (its source follows the text of \<open>QUICK_REFERENCE.md\<close>): the
  status and the three counters of \<open>recordPrintJob\<close>. The events it emits to its
  listeners are left out.
\<close>

datatype Status = Running | Stopping | Stopped | Error

record PrintJobCounters =
  total :: nat
  successful :: nat
  failed :: nat

record StateService =
  status :: Status
  printJobCounters :: PrintJobCounters

definition recordPrintJob :: "bool \<Rightarrow> StateService \<Rightarrow> StateService" where
  "recordPrintJob success s =
     (let c = printJobCounters s;
          c1 = c\<lparr>total := total c + 1\<rparr>
      in s\<lparr>printJobCounters :=
             (if success then c1\<lparr>successful := successful c1 + 1\<rparr>
              else c1\<lparr>failed := failed c1 + 1\<rparr>)\<rparr>)"

definition setStatus :: "Status \<Rightarrow> StateService \<Rightarrow> StateService" where
  "setStatus st s = s\<lparr>status := st\<rparr>"

section \<open>The session with the backend (websocket/websocket.client.ts)\<close>

text \<open>
  Class \<open>PcAgentClient\<close> (\<open>unnamed/part_005\<close>; line numbers are those of that file).
  What the client emits on its socket is appended to the socket's log. A timer handle
  records its delay and whether it can still fire.
\<close>

datatype ResultMessage = SentSuccessfully | PrintJobFailed Err

datatype Emit =
    Register string
  | PrintResult string bool ResultMessage

record IoSocket =
  ioConnected :: bool
  emitted :: "Emit list"

record Timeout =
  delayMs :: nat
  pending :: bool

record PcAgentClient =
  ioSocket :: "IoSocket option"
  backendUrl :: string
  tenantId :: string
  reconnectAttempts :: nat
  maxReconnectAttempts :: nat
  reconnectDelay :: nat
  reconnectTimer :: "Timeout option"

definition newPcAgentClient :: "string \<Rightarrow> string \<Rightarrow> PcAgentClient" where
  "newPcAgentClient url tenant =
     \<lparr>ioSocket = None, backendUrl = url, tenantId = tenant, reconnectAttempts = 0,
      maxReconnectAttempts = 10, reconnectDelay = 1000, reconnectTimer = None\<rparr>"

text \<open>\<open>this.socket?.emit(...)\<close>: nothing happens when the field is \<open>null\<close>.\<close>

definition emit :: "Emit \<Rightarrow> PcAgentClient \<Rightarrow> PcAgentClient" where
  "emit m c =
     (case ioSocket c of
        None \<Rightarrow> c
      | Some s \<Rightarrow> c\<lparr>ioSocket := Some (s\<lparr>emitted := emitted s @ [m]\<rparr>)\<rparr>)"

text \<open>The three process-wide singletons.\<close>

record World =
  client :: PcAgentClient
  stateService :: StateService
  printerPool :: PrinterConnectionPool

text \<open>\<open>process.env\<close> and \<open>DEFAULT_CONFIG\<close> (constants.ts); \<open>a || b\<close> on strings.\<close>

record ProcessEnv =
  env_PRINTER_IP :: "string option"
  env_PRINTER_PORT :: "string option"

definition DEFAULT_PRINTER_IP :: string where
  "DEFAULT_PRINTER_IP = ''192.168.1.100''"

definition DEFAULT_PRINTER_PORT :: string where
  "DEFAULT_PRINTER_PORT = ''9100''"

definition orElse :: "string option \<Rightarrow> string \<Rightarrow> string" where
  "orElse v d = (case v of None \<Rightarrow> d | Some s \<Rightarrow> if s = [] then d else s)"

text \<open>
  \<open>parseInt(s, 10)\<close>: leading white space is skipped, then an optional sign and the longest
  run of decimal digits are read; without a digit the result is NaN. The model is exact
  for strings of ASCII characters and values up to \<open>2^53\<close>: the white space beyond ASCII
  and the rounding of larger values to the nearest double are not modelled.
\<close>

definition isWhiteSpace :: "char \<Rightarrow> bool" where
  "isWhiteSpace c = (of_char c \<in> {9, 10, 11, 12, 13, 32 :: nat})"

definition isDigit :: "char \<Rightarrow> bool" where
  "isDigit c = (48 \<le> (of_char c :: nat) \<and> (of_char c :: nat) \<le> 57)"

definition digitsValue :: "string \<Rightarrow> nat" where
  "digitsValue ds = foldl (\<lambda>n c. 10 * n + (of_char c - 48)) 0 ds"

definition parseInt :: "string \<Rightarrow> number" where
  "parseInt s =
     (let t = dropWhile isWhiteSpace s;
          neg = (t \<noteq> [] \<and> hd t = CHR ''-'');
          u = (if t \<noteq> [] \<and> (hd t = CHR ''-'' \<or> hd t = CHR ''+'') then tl t else t);
          ds = takeWhile isDigit u
      in if ds = [] then None
         else Some (if neg then - int (digitsValue ds) else int (digitsValue ds)))"

definition targetPrinterIp :: "ProcessEnv \<Rightarrow> string" where
  "targetPrinterIp penv = orElse (env_PRINTER_IP penv) DEFAULT_PRINTER_IP"

definition targetPrinterPort :: "ProcessEnv \<Rightarrow> number" where
  "targetPrinterPort penv = parseInt (orElse (env_PRINTER_PORT penv) DEFAULT_PRINTER_PORT)"

text \<open>The message of event \<open>pc-agent:print-job\<close> as the handler of \<open>connect()\<close> declares it.\<close>

record PrintJob =
  jobId :: string
  jobText :: string
  format :: string
  jobPrinterIp :: "string option"
  jobPrinterPort :: "number option"

text \<open>
  \<open>handlePrintJob\<close> (lines 174-237), one run with no other task interleaved. The first
  function is the \<open>try\<close> block: it returns the state reached and the error thrown, if any.
  The second adds the \<open>catch\<close> block; its second component is the error that leaves the
  handler.
\<close>

definition handlePrintJob_try ::
  "World \<Rightarrow> ProcessEnv \<Rightarrow> PrintJob \<Rightarrow> PrintEnv \<Rightarrow> World \<times> Err option" where
  "handlePrintJob_try w penv job env =
     (if format job = ''base64''
      then
        let printData = Base64Decoded (jobText job);
            w1 = w\<lparr>stateService := recordPrintJob True (stateService w)\<rparr>;
            res = printToPrinter (printerPool w1) (targetPrinterIp penv) (targetPrinterPort penv)
                    printData env;
            w2 = w1\<lparr>printerPool := fst res\<rparr>
        in case snd res of
             Some e \<Rightarrow> (w2, Some e)
           | None \<Rightarrow>
               (w2\<lparr>stateService := recordPrintJob True (stateService w2),
                   client := emit (PrintResult (jobId job) True SentSuccessfully) (client w2)\<rparr>,
                None)
      else (w, Some (UnsupportedFormat (format job))))"

definition handlePrintJob ::
  "World \<Rightarrow> ProcessEnv \<Rightarrow> PrintJob \<Rightarrow> PrintEnv \<Rightarrow> World \<times> Err option" where
  "handlePrintJob w penv job env =
     (case handlePrintJob_try w penv job env of
        (w1, None) \<Rightarrow> (w1, None)
      | (w1, Some e) \<Rightarrow>
          (w1\<lparr>stateService := recordPrintJob False (stateService w1),
              client := emit (PrintResult (jobId job) False (PrintJobFailed e)) (client w1)\<rparr>,
           None))"

text \<open>\<open>scheduleReconnect\<close> (lines 242-267) and the \<open>disconnect\<close> handler (lines 124-135).\<close>

definition clearTimeout :: "Timeout option \<Rightarrow> Timeout option" where
  "clearTimeout t = (case t of None \<Rightarrow> None | Some x \<Rightarrow> Some (x\<lparr>pending := False\<rparr>))"

definition scheduleReconnect :: "World \<Rightarrow> World" where
  "scheduleReconnect w =
     (let c = (client w)\<lparr>reconnectTimer := clearTimeout (reconnectTimer (client w))\<rparr>
      in if reconnectAttempts c \<ge> maxReconnectAttempts c
         then w\<lparr>client := c, stateService := setStatus Error (stateService w)\<rparr>
         else w\<lparr>client := c\<lparr>reconnectTimer :=
                   Some \<lparr>delayMs = reconnectDelay c * 2 ^ reconnectAttempts c,
                         pending = True\<rparr>\<rparr>\<rparr>)"

definition onDisconnect :: "string \<Rightarrow> World \<Rightarrow> World" where
  "onDisconnect reason w =
     (let w1 = w\<lparr>stateService := setStatus Stopped (stateService w)\<rparr>
      in if reason \<noteq> ''io client disconnect'' then scheduleReconnect w1 else w1)"

text \<open>
  The other handlers that \<open>connect()\<close> registers, and the callback of the reconnect timer.
  \<open>connect()\<close> itself (lines 52-78) replaces the socket of the client by a new one, not yet
  connected. On \<open>connect\<close> (lines 80-94) the client registers, resets the counter and sets
  the status; on \<open>connect_error\<close> (lines 138-144) it rejects the promise of \<open>connect()\<close>,
  which the timer callback only logs; \<open>reconnect_attempt\<close> (lines 147-152) stores the
  attempt number of the transport and \<open>reconnect\<close> (lines 155-166) resets it. The timer
  callback (lines 255-266) calls \<open>connect()\<close>.
\<close>

definition connect_call :: "World \<Rightarrow> World" where
  "connect_call w =
     w\<lparr>client := (client w)\<lparr>ioSocket := Some \<lparr>ioConnected = False, emitted = []\<rparr>\<rparr>\<rparr>"

definition markConnected :: "PcAgentClient \<Rightarrow> PcAgentClient" where
  "markConnected c =
     (case ioSocket c of
        None \<Rightarrow> c
      | Some s \<Rightarrow> c\<lparr>ioSocket := Some (s\<lparr>ioConnected := True\<rparr>)\<rparr>)"

definition onConnect :: "World \<Rightarrow> World" where
  "onConnect w =
     w\<lparr>client := (emit (Register (tenantId (client w))) (markConnected (client w)))
                   \<lparr>reconnectAttempts := 0\<rparr>,
       stateService := setStatus Running (stateService w)\<rparr>"

definition onConnectError :: "World \<Rightarrow> World" where
  "onConnectError w = w"

definition onReconnectAttempt :: "nat \<Rightarrow> World \<Rightarrow> World" where
  "onReconnectAttempt attemptNumber w =
     w\<lparr>client := (client w)\<lparr>reconnectAttempts := attemptNumber\<rparr>\<rparr>"

definition onReconnect :: "nat \<Rightarrow> World \<Rightarrow> World" where
  "onReconnect attemptNumber w =
     w\<lparr>client := emit (Register (tenantId (client w)))
                   ((client w)\<lparr>reconnectAttempts := 0\<rparr>),
       stateService := setStatus Running (stateService w)\<rparr>"

definition reconnectTimerFires :: "World \<Rightarrow> World" where
  "reconnectTimerFires w =
     (case reconnectTimer (client w) of
        None \<Rightarrow> w
      | Some t \<Rightarrow>
          if pending t
          then connect_call (w\<lparr>client := (client w)\<lparr>reconnectTimer := Some (t\<lparr>pending := False\<rparr>)\<rparr>\<rparr>)
          else w)"

text \<open>What happens to the session, one event at a time.\<close>

datatype SessionEvent =
    EvConnect
  | EvConnectError
  | EvDisconnect string
  | EvReconnectAttempt nat
  | EvReconnect nat
  | EvTimer

fun sessionStep :: "World \<Rightarrow> SessionEvent \<Rightarrow> World" where
  "sessionStep w EvConnect = onConnect w"
| "sessionStep w EvConnectError = onConnectError w"
| "sessionStep w (EvDisconnect reason) = onDisconnect reason w"
| "sessionStep w (EvReconnectAttempt n) = onReconnectAttempt n w"
| "sessionStep w (EvReconnect n) = onReconnect n w"
| "sessionStep w EvTimer = reconnectTimerFires w"

fun isReconnectAttempt :: "SessionEvent \<Rightarrow> bool" where
  "isReconnectAttempt (EvReconnectAttempt n) = True"
| "isReconnectAttempt ev = False"

text \<open>The delay that the specification gives for attempt \<open>n\<close>.\<close>

definition spec_backoff :: "nat \<Rightarrow> nat \<Rightarrow> nat \<Rightarrow> nat" where
  "spec_backoff baseDelay maxDelay n = min (baseDelay * 2 ^ n) maxDelay"

text \<open>
  The cap on the delay that \<open>connect()\<close> passes to the transport library for the
  library's own reconnection (option \<open>reconnectionDelayMax\<close>, line 68).
\<close>

definition reconnectionDelayMax :: nat where
  "reconnectionDelayMax = 30000"

section \<open>Derived notions and concrete runs\<close>

text \<open>The statistics of one entry, with the connections in use counted on their own.\<close>

definition statOf :: "PrinterConnectionPool \<Rightarrow> poolKey \<times> ref \<Rightarrow> PoolStat" where
  "statOf p e =
     \<lparr>printer = fst e, connections = length (arrays p (snd e)),
      available = length (filter (\<lambda>r. isAvailable (conns p r)) (arrays p (snd e))),
      inUseCount = length (filter (\<lambda>r. \<not> isAvailable (conns p r)) (arrays p (snd e)))\<rparr>"

text \<open>
  A freshly started agent with a connected session, a job as the backend sends it, an
  empty environment, and a run in which the printer accepts the connection and the data.
\<close>

definition world0 :: World where
  "world0 =
     \<lparr>client = (newPcAgentClient ''http://localhost:3000'' ''t1'')
                 \<lparr>ioSocket := Some \<lparr>ioConnected = True, emitted = []\<rparr>\<rparr>,
      stateService = \<lparr>status = Running,
                       printJobCounters = \<lparr>total = 0, successful = 0, failed = 0\<rparr>\<rparr>,
      printerPool = newPrinterConnectionPool 5 5000 30000\<rparr>"

definition job0 :: PrintJob where
  "job0 = \<lparr>jobId = ''abc'', jobText = ''SGVsbG8='', format = ''base64'',
            jobPrinterIp = None, jobPrinterPort = None\<rparr>"

definition penv0 :: ProcessEnv where
  "penv0 = \<lparr>env_PRINTER_IP = None, env_PRINTER_PORT = None\<rparr>"

definition env_ok :: PrintEnv where
  "env_ok = \<lparr>tAcquire = 0,
             connectingSocket = \<lparr>destroyed = False, writable = True, written = []\<rparr>,
             connectOutcome = Connected, tConnected = 5, waitEvents = [],
             writeOutcome = Written, tRelease = 10\<rparr>"

text \<open>
  A printer endpoint, a payload, and the runs in which the write fails, the printer
  refuses the connection, and the connect times out.
\<close>

definition ipA :: string where
  "ipA = ''192.168.1.100''"

definition portA :: number where
  "portA = Some 9100"

definition data0 :: Buffer where
  "data0 = Base64Decoded ''SGVsbG8=''"

definition env_sendfail :: PrintEnv where
  "env_sendfail = env_ok\<lparr>writeOutcome := WriteFailed ''EPIPE''\<rparr>"

definition env_refused :: PrintEnv where
  "env_refused = env_ok\<lparr>connectOutcome := Failed ''ECONNREFUSED''\<rparr>"

definition env_unreachable :: PrintEnv where
  "env_unreachable = env_ok\<lparr>connectOutcome := TimedOut\<rparr>"

text \<open>The pool of a fresh agent, and that pool after a print and after a failed write.\<close>

definition pool5 :: PrinterConnectionPool where
  "pool5 = newPrinterConnectionPool 5 5000 30000"

definition pool_idle :: PrinterConnectionPool where
  "pool_idle = fst (printToPrinter pool5 ipA portA data0 env_ok)"

definition pool_dead :: PrinterConnectionPool where
  "pool_dead = fst (printToPrinter pool5 ipA portA data0 env_sendfail)"

text \<open>
  An entry is in order when its array has been allocated, holds allocated connections only
  and is not longer than the cap.
\<close>

definition entryOk :: "PrinterConnectionPool \<Rightarrow> poolKey \<times> ref \<Rightarrow> bool" where
  "entryOk p e =
     (snd e < nextArray p
      \<and> (\<forall>r \<in> set (arrays p (snd e)). r < nextConn p)
      \<and> length (arrays p (snd e)) \<le> maxConnectionsPerPrinter p)"

definition poolInv :: "PrinterConnectionPool \<Rightarrow> bool" where
  "poolInv p = (\<forall>e \<in> set (pools p). entryOk p e)"

text \<open>
  Pools with a cap of one and of two connections: fresh, with a first connection in use,
  and with two connections of which the first has been released.
\<close>

definition pool2 :: PrinterConnectionPool where
  "pool2 = newPrinterConnectionPool 2 5000 30000"

definition pool_two :: PrinterConnectionPool where
  "pool_two =
     releaseRef (fst (acquireConnection (fst (acquireConnection pool2 ipA portA env_ok))
                        ipA portA env_ok)) 0 20"

definition pool1 :: PrinterConnectionPool where
  "pool1 = newPrinterConnectionPool 1 5000 30000"

definition pool_busy :: PrinterConnectionPool where
  "pool_busy = fst (acquireConnection pool1 ipA portA env_ok)"

definition openSocket :: Socket where
  "openSocket = \<lparr>destroyed = False, writable = True, written = []\<rparr>"












text \<open>
  The wait of an acquire as the callbacks of its timer and interval run it on the waiter.
\<close>

fun wait_callbacks ::
  "PrinterConnectionPool \<Rightarrow> Waiter \<Rightarrow> WaitEvent list \<Rightarrow> PrinterConnectionPool \<times> Waiter" where
  "wait_callbacks p w [] = (p, wait_timeout w)"
| "wait_callbacks p w (Tick now # evs) =
     (if settled (snd (wait_interval p w now)) = None
      then wait_callbacks (fst (wait_interval p w now)) (snd (wait_interval p w now)) evs
      else wait_interval p w now)"
| "wait_callbacks p w (Step act # evs) = wait_callbacks (poolStep p act) w evs"

section \<open>Verification\<close>

subsection \<open>Evaluation of concrete runs\<close>

lemma parseInt_9100: "parseInt ''9100'' = Some 9100"
  by (simp add: parseInt_def isWhiteSpace_def isDigit_def digitsValue_def)

lemmas run_defs = handlePrintJob_def handlePrintJob_try_def printToPrinter_def
  acquireConnection_def acquire_begin_def acquire_settle_def getPool_def findAvailable_def
  markRef_def releaseRef_def setConnection_def connect_begin_def connect_settle_def send_def
  newPooledConnection_def newPrinterConnectionPool_def mkPoolKey_def isAvailable_def
  isConnected_def markInUse_def release_def recordPrintJob_def emit_def newPcAgentClient_def
  targetPrinterIp_def targetPrinterPort_def orElse_def DEFAULT_PRINTER_IP_def
  DEFAULT_PRINTER_PORT_def

subsection \<open>Job statistics\<close>

text \<open>
  Claim C4: a remote-dispatched job that completes successfully is recorded once in the
  job statistics. The code records it twice: job \<open>abc\<close>, printed without error on a fresh
  agent, leaves the counters at two jobs in total and two successful ones, for the one
  result event emitted.
\<close>

theorem handlePrintJob_counts_twice:
  "printJobCounters (stateService (fst (handlePrintJob world0 penv0 job0 env_ok)))
     = \<lparr>total = 2, successful = 2, failed = 0\<rparr>
   \<and> ioSocket (client (fst (handlePrintJob world0 penv0 job0 env_ok)))
     = Some \<lparr>ioConnected = True, emitted = [PrintResult ''abc'' True SentSuccessfully]\<rparr>"
  by (simp add: world0_def job0_def penv0_def env_ok_def run_defs parseInt_9100 Let_def)

subsection \<open>Reconnection\<close>

text \<open>
  Claim C2: after a disconnect that the client did not ask for, the wait before the next
  attempt is \<open>min (baseDelay * 2 ^ reconnectAttempt) maxDelay\<close>, doubling with each attempt,
  and the session becomes failed once the attempts reach \<open>maxReconnectAttempts\<close>. The
  session never advances its counter: a connected session loses the transport and waits
  1000 ms; the attempt of the timer fails; the counter is still 0, no timer is pending and
  the status is \<open>Stopped\<close>, where the claim has a second attempt after 2000 ms.
\<close>

theorem reconnect_counter_never_advances:
  "reconnectTimer (client (foldl sessionStep world0 [EvDisconnect ''transport close'']))
     = Some \<lparr>delayMs = 1000, pending = True\<rparr>
   \<and> reconnectAttempts (client (foldl sessionStep world0
         [EvDisconnect ''transport close'', EvTimer, EvConnectError])) = 0
   \<and> reconnectTimer (client (foldl sessionStep world0
         [EvDisconnect ''transport close'', EvTimer, EvConnectError]))
       = Some \<lparr>delayMs = 1000, pending = False\<rparr>
   \<and> status (stateService (foldl sessionStep world0
         [EvDisconnect ''transport close'', EvTimer, EvConnectError])) = Stopped
   \<and> spec_backoff (reconnectDelay (client world0)) reconnectionDelayMax 1 = 2000"
  by (simp add: world0_def newPcAgentClient_def onDisconnect_def scheduleReconnect_def
      clearTimeout_def setStatus_def reconnectTimerFires_def connect_call_def
      onConnectError_def spec_backoff_def reconnectionDelayMax_def Let_def)

text \<open>
  As long as the transport delivers no \<open>reconnect_attempt\<close> to the socket, the counter
  stays at 0 whatever happens, so the branch of \<open>scheduleReconnect\<close> that gives up is
  never taken and the status never becomes \<open>Error\<close>.
\<close>

lemma sessionStep_attempts:
  assumes "reconnectAttempts (client w) = 0" "0 < maxReconnectAttempts (client w)"
    "status (stateService w) \<noteq> Error" "\<not> isReconnectAttempt ev"
  shows "reconnectAttempts (client (sessionStep w ev)) = 0
       \<and> maxReconnectAttempts (client (sessionStep w ev)) = maxReconnectAttempts (client w)
       \<and> status (stateService (sessionStep w ev)) \<noteq> Error"
  using assms
  by (cases ev)
     (auto simp: onConnect_def onConnectError_def onDisconnect_def onReconnect_def
        scheduleReconnect_def reconnectTimerFires_def connect_call_def emit_def
        markConnected_def setStatus_def clearTimeout_def Let_def split: option.splits)

lemma session_never_failed:
  assumes "reconnectAttempts (client w) = 0" "0 < maxReconnectAttempts (client w)"
    "status (stateService w) \<noteq> Error" "\<forall>ev \<in> set evs. \<not> isReconnectAttempt ev"
  shows "reconnectAttempts (client (foldl sessionStep w evs)) = 0
       \<and> status (stateService (foldl sessionStep w evs)) \<noteq> Error"
  using assms
proof (induction evs arbitrary: w)
  case Nil
  then show ?case by simp
next
  case (Cons ev evs)
  from Cons.prems have "\<not> isReconnectAttempt ev" by simp
  from sessionStep_attempts [OF Cons.prems(1,2,3) this] Cons.prems(2,4)
  show ?case using Cons.IH [of "sessionStep w ev"] by simp
qed

subsection \<open>The printer a job is sent to\<close>

text \<open>
  Claim C10: a dispatched job is always sent to the configured default printer. The fields
  \<open>printerIp\<close> and \<open>printerPort\<close> of the message change nothing, and the pool is left as by
  a print to \<open>PRINTER_IP\<close> and \<open>PRINTER_PORT\<close> of the environment, or to the defaults of
  \<open>DEFAULT_CONFIG\<close> where these are unset or empty.
\<close>

theorem handlePrintJob_target:
  "handlePrintJob w penv (job\<lparr>jobPrinterIp := ip', jobPrinterPort := port'\<rparr>) env
     = handlePrintJob w penv job env
   \<and> printerPool (fst (handlePrintJob w penv job env))
     = (if format job = ''base64''
        then fst (printToPrinter (printerPool w)
                    (orElse (env_PRINTER_IP penv) DEFAULT_PRINTER_IP)
                    (parseInt (orElse (env_PRINTER_PORT penv) DEFAULT_PRINTER_PORT))
                    (Base64Decoded (jobText job)) env)
        else printerPool w)"
  by (simp add: handlePrintJob_def handlePrintJob_try_def targetPrinterIp_def
      targetPrinterPort_def Let_def split: option.splits prod.splits)

subsection \<open>Statistics of the pool\<close>

lemma length_filter_compl:
  "length xs - length (filter P xs) = length (filter (\<lambda>x. \<not> P x) xs)"
  using sum_length_filter_compl [of P xs] by simp

lemma statsLoop_eq:
  "statsLoop p es n acc
     = (n + sum_list (map (\<lambda>e. length (arrays p (snd e))) es), acc @ map (statOf p) es)"
  by (induction es arbitrary: n acc) (simp_all add: Let_def statOf_def length_filter_compl)

text \<open>
  Claim C9: in the snapshot of \<open>getStats\<close>, every entry has \<open>inUse + available = total\<close>,
  the global total is the sum of the totals of the entries, and no connection is counted
  twice: \<open>available\<close> counts the connections of the entry that are available, \<open>inUse\<close>
  those that are not.
\<close>

theorem getStats_consistent:
  "(\<forall>s \<in> set (poolStats (getStats p)). inUseCount s + available s = connections s)
   \<and> totalConnections (getStats p) = sum_list (map connections (poolStats (getStats p)))
   \<and> poolStats (getStats p) = map (statOf p) (pools p)"
proof -
  have ps: "poolStats (getStats p) = map (statOf p) (pools p)"
    by (simp add: getStats_def statsLoop_eq)
  have tc: "totalConnections (getStats p) = sum_list (map (\<lambda>e. length (arrays p (snd e))) (pools p))"
    by (simp add: getStats_def statsLoop_eq)
  have one: "inUseCount (statOf p e) + available (statOf p e) = connections (statOf p e)" for e
    using sum_length_filter_compl [of "\<lambda>r. isAvailable (conns p r)" "arrays p (snd e)"]
    by (simp add: statOf_def)
  have mc: "map connections (map (statOf p) (pools p)) = map (\<lambda>e. length (arrays p (snd e))) (pools p)"
    by (simp add: statOf_def comp_def)
  have a: "\<forall>s \<in> set (poolStats (getStats p)). inUseCount s + available s = connections s"
    unfolding ps using one by auto
  have b: "totalConnections (getStats p) = sum_list (map connections (poolStats (getStats p)))"
    unfolding ps mc by (rule tc)
  from a b ps show ?thesis by blast
qed

subsection \<open>The pools of the concrete runs\<close>

lemmas scen_defs = ipA_def portA_def data0_def env_sendfail_def env_refused_def
  env_unreachable_def pool5_def env_ok_def

lemma pool_idle_eval:
  "pools pool_idle = [((ipA, portA), 0)]"
  "arrays pool_idle 0 = [0]"
  "conns pool_idle 0 = \<lparr>connection = \<lparr>socket = Some \<lparr>destroyed = False, writable = True,
        written = [data0]\<rparr>,
        printerIp = ipA, printerPort = portA, connectionTimeout = 5000\<rparr>,
      poolKey = (ipA, portA), inUse = False, lastUsed = 10, maxIdleTime = 30000\<rparr>"
  "nextConn pool_idle = 1" "nextArray pool_idle = 1"
  "maxConnectionsPerPrinter pool_idle = 5" "poolMaxIdleTime pool_idle = 30000"
  by (simp_all add: pool_idle_def scen_defs run_defs Let_def)

lemma pool_dead_eval:
  "pools pool_dead = [((ipA, portA), 0)]"
  "arrays pool_dead 0 = [0]"
  "conns pool_dead 0 = \<lparr>connection = \<lparr>socket = Some \<lparr>destroyed = True, writable = False,
        written = []\<rparr>,
        printerIp = ipA, printerPort = portA, connectionTimeout = 5000\<rparr>,
      poolKey = (ipA, portA), inUse = False, lastUsed = 10, maxIdleTime = 30000\<rparr>"
  "nextConn pool_dead = 1" "nextArray pool_dead = 1"
  "maxConnectionsPerPrinter pool_dead = 5" "poolMaxIdleTime pool_dead = 30000"
  "snd (printToPrinter pool5 ipA portA data0 env_sendfail) = Some (WriteError ''EPIPE'')"
  by (simp_all add: pool_dead_def scen_defs run_defs Let_def)

lemma pool_two_eval:
  "pools pool_two = [((ipA, portA), 0)]"
  "arrays pool_two 0 = [0, 1]"
  "conns pool_two 0 = \<lparr>connection = \<lparr>socket = Some \<lparr>destroyed = False, writable = True,
        written = []\<rparr>,
        printerIp = ipA, printerPort = portA, connectionTimeout = 5000\<rparr>,
      poolKey = (ipA, portA), inUse = False, lastUsed = 20, maxIdleTime = 30000\<rparr>"
  "conns pool_two (Suc 0) = \<lparr>connection = \<lparr>socket = Some \<lparr>destroyed = False, writable = True,
        written = []\<rparr>,
        printerIp = ipA, printerPort = portA, connectionTimeout = 5000\<rparr>,
      poolKey = (ipA, portA), inUse = True, lastUsed = 5, maxIdleTime = 30000\<rparr>"
  "nextConn pool_two = 2" "nextArray pool_two = 1"
  "maxConnectionsPerPrinter pool_two = 2"
  by (simp_all add: pool_two_def pool2_def scen_defs run_defs Let_def)

lemma pool_busy_eval:
  "pools pool_busy = [((ipA, portA), 0)]"
  "arrays pool_busy 0 = [0]"
  "conns pool_busy 0 = \<lparr>connection = \<lparr>socket = Some \<lparr>destroyed = False, writable = True,
        written = []\<rparr>,
        printerIp = ipA, printerPort = portA, connectionTimeout = 5000\<rparr>,
      poolKey = (ipA, portA), inUse = True, lastUsed = 5, maxIdleTime = 30000\<rparr>"
  "nextConn pool_busy = 1" "nextArray pool_busy = 1"
  "maxConnectionsPerPrinter pool_busy = 1"
  by (simp_all add: pool_busy_def pool1_def scen_defs run_defs Let_def)

theorem getStats_consistent_witness:
  "poolStats (getStats pool_idle)
     = [\<lparr>printer = (ipA, portA), connections = 1, available = 1, inUseCount = 0\<rparr>]
   \<and> totalConnections (getStats pool_idle) = 1"
  using getStats_consistent [of pool_idle]
  by (simp add: statOf_def pool_idle_eval isAvailable_def isConnected_def)

subsection \<open>Reclaiming idle connections\<close>

text \<open>
  Claim C7: after a run of the cleanup, every idle connection older than the idle timeout
  is closed, removed from its entry and absent from the statistics. The code keeps an idle
  connection whose socket is dead: the connection released after a failed write at time 10
  is still in its entry, not closed, and counted by \<open>getStats\<close> after the cleanup of time
  100000, with an idle timeout of 30000.
\<close>

theorem cleanup_keeps_dead_idle:
  "\<not> inUse (conns pool_dead 0)
   \<and> 100000 - lastUsed (conns pool_dead 0) > poolMaxIdleTime pool_dead
   \<and> pools (cleanupIdleConnections pool_dead 100000) = [((ipA, portA), 1)]
   \<and> arrays (cleanupIdleConnections pool_dead 100000) 1 = [0]
   \<and> socket (connection (conns (cleanupIdleConnections pool_dead 100000) 0)) \<noteq> None
   \<and> poolStats (getStats (cleanupIdleConnections pool_dead 100000))
       = [\<lparr>printer = (ipA, portA), connections = 1, available = 0, inUseCount = 1\<rparr>]"
  by (simp add: cleanupIdleConnections_def cleanupEntry_def pool_dead_eval isAvailable_def
      isConnected_def getStats_def Let_def)

subsection \<open>Acquiring, sending, releasing\<close>




















subsection \<open>A send that fails\<close>






subsection \<open>The result of a job\<close>













subsection \<open>Reuse of a connection\<close>

text \<open>
  Claim C6, as stated: a release of a healthy connection followed at once by an acquire for
  the same endpoint returns the same connection. It fails when an earlier connection of
  the entry is idle and healthy: with connections 0 (idle) and 1 (in use) in the entry,
  the acquire that follows the release of connection 1 returns connection 0.
\<close>

theorem release_acquire_other_connection:
  "map_of (pools pool_two) (mkPoolKey ipA portA) = Some 0
   \<and> arrays pool_two 0 = [0, 1]
   \<and> inUse (conns pool_two 1)
   \<and> isConnected (connection (conns pool_two 1))
   \<and> snd (acquire_begin (releaseRef pool_two 1 30) ipA portA 30 openSocket) = Reused 0"
  by (simp add: pool_two_eval mkPoolKey_def acquire_begin_def getPool_def findAvailable_def
      releaseRef_def release_def isAvailable_def isConnected_def Let_def)

lemma find_first:
  "r \<in> set xs \<Longrightarrow> P r \<Longrightarrow> \<forall>x \<in> set (takeWhile (\<lambda>x. x \<noteq> r) xs). \<not> P x \<Longrightarrow> find P xs = Some r"
  by (induction xs) auto

lemma find_exists:
  "\<exists>x \<in> set xs. P x \<Longrightarrow> \<exists>r. find P xs = Some r \<and> r \<in> set xs \<and> P r"
  by (induction xs) auto

lemma acquire_begin_Reused:
  assumes "map_of (pools p) (mkPoolKey ip port) = Some a" "findAvailable p a = Some r"
  shows "acquire_begin p ip port now s0 = (markRef p r now, Reused r)"
  using assms by (simp add: acquire_begin_def getPool_def Let_def)

text \<open>
  Claim C6, amended: an acquire on an entry that holds an available connection (idle, and
  its socket connected) returns the first such connection of the array, marked in use with
  \<open>lastUsed\<close> updated, and creates nothing: same socket, no new connection, arrays and map
  unchanged. A release followed at once by an acquire for the same endpoint returns the
  released connection when it is in the entry, its socket is connected, and no connection
  before it in the array is available.
\<close>

theorem acquire_reuse:
  assumes key: "map_of (pools p) (mkPoolKey ip port) = Some a"
  shows "((\<exists>r \<in> set (arrays p a). isAvailable (conns p r)) \<longrightarrow>
           (\<exists>r \<in> set (arrays p a).
              findAvailable p a = Some r
              \<and> isAvailable (conns p r)
              \<and> snd (acquire_begin p ip port now s0) = Reused r
              \<and> inUse (conns (fst (acquire_begin p ip port now s0)) r)
              \<and> lastUsed (conns (fst (acquire_begin p ip port now s0)) r) = now
              \<and> connection (conns (fst (acquire_begin p ip port now s0)) r)
                  = connection (conns p r)
              \<and> nextConn (fst (acquire_begin p ip port now s0)) = nextConn p
              \<and> arrays (fst (acquire_begin p ip port now s0)) = arrays p
              \<and> pools (fst (acquire_begin p ip port now s0)) = pools p))
       \<and> (r \<in> set (arrays p a) \<and> isConnected (connection (conns p r))
            \<and> (\<forall>r' \<in> set (takeWhile (\<lambda>x. x \<noteq> r) (arrays p a)). \<not> isAvailable (conns p r')) \<longrightarrow>
            snd (acquire_begin (releaseRef p r t) ip port now s0) = Reused r)"
proof (intro conjI impI)
  assume "\<exists>r \<in> set (arrays p a). isAvailable (conns p r)"
  then obtain r where r: "findAvailable p a = Some r" "r \<in> set (arrays p a)" "isAvailable (conns p r)"
    unfolding findAvailable_def using find_exists [of "arrays p a" "\<lambda>r. isAvailable (conns p r)"]
    by blast
  have "acquire_begin p ip port now s0 = (markRef p r now, Reused r)"
    by (rule acquire_begin_Reused [OF key r(1)])
  with r show "\<exists>r \<in> set (arrays p a).
              findAvailable p a = Some r
              \<and> isAvailable (conns p r)
              \<and> snd (acquire_begin p ip port now s0) = Reused r
              \<and> inUse (conns (fst (acquire_begin p ip port now s0)) r)
              \<and> lastUsed (conns (fst (acquire_begin p ip port now s0)) r) = now
              \<and> connection (conns (fst (acquire_begin p ip port now s0)) r)
                  = connection (conns p r)
              \<and> nextConn (fst (acquire_begin p ip port now s0)) = nextConn p
              \<and> arrays (fst (acquire_begin p ip port now s0)) = arrays p
              \<and> pools (fst (acquire_begin p ip port now s0)) = pools p"
    by (intro bexI [of _ r]) (simp_all add: markRef_def markInUse_def)
next
  assume h: "r \<in> set (arrays p a) \<and> isConnected (connection (conns p r))
            \<and> (\<forall>r' \<in> set (takeWhile (\<lambda>x. x \<noteq> r) (arrays p a)). \<not> isAvailable (conns p r'))"
  let ?q = "releaseRef p r t"
  have k: "map_of (pools ?q) (mkPoolKey ip port) = Some a"
    using key by (simp add: releaseRef_def)
  have av: "isAvailable (conns ?q r)"
    using h by (simp add: releaseRef_def release_def isAvailable_def)
  have others: "\<forall>x \<in> set (takeWhile (\<lambda>x. x \<noteq> r) (arrays ?q a)). \<not> isAvailable (conns ?q x)"
  proof
    fix x assume x: "x \<in> set (takeWhile (\<lambda>x. x \<noteq> r) (arrays ?q a))"
    then have "x \<noteq> r" by (auto dest: set_takeWhileD)
    with x h show "\<not> isAvailable (conns ?q x)" by (simp add: releaseRef_def)
  qed
  have "findAvailable ?q a = Some r"
    unfolding findAvailable_def
    using find_first [of r "arrays ?q a" "\<lambda>r. isAvailable (conns ?q r)"] h av others
    by (simp add: releaseRef_def)
  from acquire_begin_Reused [OF k this]
  show "snd (acquire_begin ?q ip port now s0) = Reused r" by simp
qed

theorem acquire_reuse_witness:
  "map_of (pools pool_idle) (mkPoolKey ipA portA) = Some 0
   \<and> (\<exists>r \<in> set (arrays pool_idle 0). isAvailable (conns pool_idle r))
   \<and> snd (acquire_begin pool_idle ipA portA 50 openSocket) = Reused 0
   \<and> inUse (conns (fst (acquire_begin pool_idle ipA portA 50 openSocket)) 0)
   \<and> nextConn (fst (acquire_begin pool_idle ipA portA 50 openSocket)) = 1
   \<and> 0 \<in> set (arrays pool_idle 0)
   \<and> isConnected (connection (conns pool_idle 0))
   \<and> takeWhile (\<lambda>x. x \<noteq> 0) (arrays pool_idle 0) = []
   \<and> snd (acquire_begin (releaseRef pool_idle 0 60) ipA portA 70 openSocket) = Reused 0"
proof -
  have k: "map_of (pools pool_idle) (mkPoolKey ipA portA) = Some 0"
    by (simp add: pool_idle_eval mkPoolKey_def)
  have av: "isAvailable (conns pool_idle 0)" "isConnected (connection (conns pool_idle 0))"
    by (simp_all add: pool_idle_eval isAvailable_def isConnected_def)
  have ex: "\<exists>r \<in> set (arrays pool_idle 0). isAvailable (conns pool_idle r)"
    using av by (simp add: pool_idle_eval)
  have h: "0 \<in> set (arrays pool_idle 0)"
     "\<forall>r' \<in> set (takeWhile (\<lambda>x. x \<noteq> 0) (arrays pool_idle 0)). \<not> isAvailable (conns pool_idle r')"
    by (simp_all add: pool_idle_eval)
  note T1 = acquire_reuse [OF k, where now = 50 and ?s0.0 = openSocket and r = 0 and t = 60]
  note T2 = acquire_reuse [OF k, where now = 70 and ?s0.0 = openSocket and r = 0 and t = 60]
  from T1 ex have "snd (acquire_begin pool_idle ipA portA 50 openSocket) = Reused 0"
     "inUse (conns (fst (acquire_begin pool_idle ipA portA 50 openSocket)) 0)"
     "nextConn (fst (acquire_begin pool_idle ipA portA 50 openSocket)) = 1"
    by (auto simp: pool_idle_eval)
  moreover from T2 h av
  have "snd (acquire_begin (releaseRef pool_idle 0 60) ipA portA 70 openSocket) = Reused 0"
    by blast
  moreover have "takeWhile (\<lambda>x. x \<noteq> 0) (arrays pool_idle 0) = []"
    by (simp add: pool_idle_eval)
  ultimately show ?thesis using k ex h av by blast
qed

subsection \<open>Waiting on a saturated entry\<close>

text \<open>
  A waiter that runs alone: as long as no connection of the captured array is available,
  a poll changes nothing, and the timer rejects with the timeout.
\<close>

lemma wait_alone_times_out:
  assumes "findAvailable p a = None"
  shows "wait_interval p (waitForAvailableConnection key a) now
           = (p, waitForAvailableConnection key a)"
    and "settled (wait_timeout (waitForAvailableConnection key a)) = Some (Inl (WaitTimeout key))"
  using assms
  by (simp_all add: wait_interval_def wait_timeout_def waitForAvailableConnection_def settle_def)

text \<open>
  Claim C3: when the wait of an acquire on a saturated entry times out, the acquire fails
  once with the timeout, polls no more and marks no connection in use. The timer callback
  rejects but leaves the interval running: with one connection, in use, under a cap of one,
  the waiter is rejected at the timeout; the holder then releases the connection, and the
  next poll of the rejected waiter marks it in use. The promise stays rejected, so nobody
  holds the connection and no later acquire finds it available.
\<close>

theorem wait_polls_after_timeout:
  "snd (acquire_begin pool_busy ipA portA 100 openSocket) = Saturated 0
   \<and> settled (wait_timeout (waitForAvailableConnection (mkPoolKey ipA portA) 0))
       = Some (Inl (WaitTimeout (ipA, portA)))
   \<and> intervalActive (wait_timeout (waitForAvailableConnection (mkPoolKey ipA portA) 0))
   \<and> inUse (conns (fst (wait_interval (releaseRef pool_busy 0 10200)
                 (wait_timeout (waitForAvailableConnection (mkPoolKey ipA portA) 0)) 10300)) 0)
   \<and> settled (snd (wait_interval (releaseRef pool_busy 0 10200)
                 (wait_timeout (waitForAvailableConnection (mkPoolKey ipA portA) 0)) 10300))
       = Some (Inl (WaitTimeout (ipA, portA)))
   \<and> findAvailable (fst (wait_interval (releaseRef pool_busy 0 10200)
                 (wait_timeout (waitForAvailableConnection (mkPoolKey ipA portA) 0)) 10300)) 0
       = None"
  by (simp add: pool_busy_eval mkPoolKey_def acquire_begin_def getPool_def findAvailable_def
      releaseRef_def release_def isAvailable_def isConnected_def Let_def
      wait_timeout_def wait_interval_def waitForAvailableConnection_def settle_def markRef_def
      markInUse_def)

text \<open>
  The run of a wait is the run of the two callbacks on the waiter: it ends with the
  promise settled, the pool and the settlement being those of the run.
\<close>

lemma wait_run_callbacks:
  assumes "settled w = None" "timeoutPending w" "intervalActive w"
  shows "fst (wait_callbacks p w evs)
           = fst (waitForAvailableConnection_run p (waitKey w) (waitPool w) evs)
       \<and> settled (snd (wait_callbacks p w evs))
           = Some (snd (waitForAvailableConnection_run p (waitKey w) (waitPool w) evs))"
  using assms
proof (induction evs arbitrary: p)
  case Nil
  then show ?case by (simp add: wait_timeout_def settle_def)
next
  case (Cons ev evs)
  show ?case
  proof (cases ev)
    case (Tick now)
    show ?thesis
    proof (cases "findAvailable p (waitPool w)")
      case None
      then have "wait_interval p w now = (p, w)" by (simp add: wait_interval_def)
      with Cons Tick None show ?thesis by simp
    next
      case (Some r)
      with Cons.prems have "wait_interval p w now
          = (markRef p r now, (w\<lparr>timeoutPending := False, intervalActive := False\<rparr>)
                                \<lparr>settled := Some (Inr r)\<rparr>)"
        by (simp add: wait_interval_def settle_def)
      with Tick Some show ?thesis by simp
    qed
  next
    case (Step act)
    with Cons show ?thesis by simp
  qed
qed

subsection \<open>The cap on the connections of an entry\<close>

text \<open>
  From a pool whose entries are in order, every interleaving of the pool's actions leaves
  every entry with at most \<open>maxConnectionsPerPrinter\<close> connections.
\<close>

lemma set_update_subset: "set (AList.update k v al) \<subseteq> insert (k, v) (set al)"
  by (induction al) auto

lemma set_delete_subset: "set (AList.delete k al) \<subseteq> set al"
  by (induction al) auto

lemma poolInv_conns [simp]: "poolInv (p\<lparr>conns := c\<rparr>) = poolInv p"
  by (simp add: poolInv_def entryOk_def)

lemma getPool_inv:
  assumes "poolInv p"
  shows "poolInv (fst (getPool p key))"
    and "map_of (pools (fst (getPool p key))) key = Some (snd (getPool p key))"
    and "maxConnectionsPerPrinter (fst (getPool p key)) = maxConnectionsPerPrinter p"
    and "nextConn (fst (getPool p key)) = nextConn p"
proof -
  show "poolInv (fst (getPool p key))"
  proof (cases "map_of (pools p) key")
    case None
    have "entryOk (fst (getPool p key)) e" if "e \<in> set (pools (fst (getPool p key)))" for e
    proof -
      from that None have "e = (key, nextArray p) \<or> e \<in> set (pools p)"
        using set_update_subset [of key "nextArray p" "pools p"] by (auto simp: getPool_def)
      then show ?thesis
      proof
        assume "e = (key, nextArray p)"
        then show ?thesis using None by (simp add: getPool_def entryOk_def)
      next
        assume "e \<in> set (pools p)"
        with assms have "entryOk p e" by (simp add: poolInv_def)
        then show ?thesis using None by (auto simp: getPool_def entryOk_def)
      qed
    qed
    then show ?thesis by (simp add: poolInv_def)
  next
    case (Some a)
    then show ?thesis using assms by (simp add: getPool_def)
  qed
  show "map_of (pools (fst (getPool p key))) key = Some (snd (getPool p key))"
    by (simp add: getPool_def update_conv' split: option.splits)
  show "maxConnectionsPerPrinter (fst (getPool p key)) = maxConnectionsPerPrinter p"
    by (simp add: getPool_def split: option.splits)
  show "nextConn (fst (getPool p key)) = nextConn p"
    by (simp add: getPool_def split: option.splits)
qed

lemma push_inv:
  assumes "poolInv q" "\<not> maxConnectionsPerPrinter q \<le> length (arrays q a)"
  shows "poolInv (q\<lparr>conns := c, nextConn := Suc (nextConn q),
                    arrays := (arrays q)(a := arrays q a @ [nextConn q])\<rparr>)"
  unfolding poolInv_def
proof
  fix e
  assume "e \<in> set (pools (q\<lparr>conns := c, nextConn := Suc (nextConn q),
                    arrays := (arrays q)(a := arrays q a @ [nextConn q])\<rparr>))"
  then have "entryOk q e" using assms(1) by (simp add: poolInv_def)
  then show "entryOk (q\<lparr>conns := c, nextConn := Suc (nextConn q),
                    arrays := (arrays q)(a := arrays q a @ [nextConn q])\<rparr>) e"
    using assms(2) by (auto simp: entryOk_def less_Suc_eq)
qed

lemma acquire_begin_inv:
  assumes "poolInv p"
  shows "poolInv (fst (acquire_begin p ip port now s0))"
proof -
  let ?q = "fst (getPool p (mkPoolKey ip port))"
  have q: "poolInv ?q" by (rule getPool_inv(1) [OF assms])
  show ?thesis
    using q push_inv [OF q]
    by (simp add: acquire_begin_def Let_def markRef_def split: option.splits)
qed

lemma acquire_settle_inv:
  assumes "poolInv p"
  shows "poolInv (fst (acquire_settle p a r out now))"
proof -
  have "poolInv (q\<lparr>arrays := (arrays q)(a := remove1 r (arrays q a))\<rparr>)" if "poolInv q" for q
    unfolding poolInv_def
  proof
    fix e assume "e \<in> set (pools (q\<lparr>arrays := (arrays q)(a := remove1 r (arrays q a))\<rparr>))"
    with that have e: "entryOk q e" by (simp add: poolInv_def)
    have "length (remove1 r (arrays q a)) \<le> length (arrays q a)"
      by (simp add: length_remove1)
    with e show "entryOk (q\<lparr>arrays := (arrays q)(a := remove1 r (arrays q a))\<rparr>) e"
      by (auto simp: entryOk_def dest: notin_set_remove1)
  qed
  from this [of "setConnection p r (snd (connect_settle (connection (conns p r)) out))"] assms
  show ?thesis
    by (simp add: acquire_settle_def Let_def markRef_def setConnection_def split: option.splits)
qed

lemma cleanupLoop_length:
  "length (snd (cleanupLoop cs now idle rs act)) \<le> length act + length rs"
proof (induction rs arbitrary: cs act)
  case Nil
  show ?case by simp
next
  case (Cons r rs)
  let ?cs = "cs(r := (cs r)\<lparr>connection := close (connection (cs r))\<rparr>)"
  have a: "length (snd (cleanupLoop ?cs now idle rs act)) \<le> length act + length rs"
    by (rule Cons.IH)
  have b: "length (snd (cleanupLoop cs now idle rs (act @ [r]))) \<le> length (act @ [r]) + length rs"
    by (rule Cons.IH)
  show ?case
  proof (cases "isAvailable (cs r) \<and> now - lastUsed (cs r) > idle")
    case True
    then have "snd (cleanupLoop cs now idle (r # rs) act) = snd (cleanupLoop ?cs now idle rs act)"
      by simp
    with a show ?thesis by simp
  next
    case False
    then have "snd (cleanupLoop cs now idle (r # rs) act)
             = snd (cleanupLoop cs now idle rs (act @ [r]))"
      by auto
    with b show ?thesis by simp
  qed
qed

lemma cleanupLoop_set:
  "set (snd (cleanupLoop cs now idle rs act)) \<subseteq> set act \<union> set rs"
proof (induction rs arbitrary: cs act)
  case Nil
  show ?case by simp
next
  case (Cons r rs)
  let ?cs = "cs(r := (cs r)\<lparr>connection := close (connection (cs r))\<rparr>)"
  have a: "set (snd (cleanupLoop ?cs now idle rs act)) \<subseteq> set act \<union> set rs"
    by (rule Cons.IH)
  have b: "set (snd (cleanupLoop cs now idle rs (act @ [r]))) \<subseteq> set (act @ [r]) \<union> set rs"
    by (rule Cons.IH)
  show ?case
  proof (cases "isAvailable (cs r) \<and> now - lastUsed (cs r) > idle")
    case True
    then have "snd (cleanupLoop cs now idle (r # rs) act) = snd (cleanupLoop ?cs now idle rs act)"
      by simp
    with a show ?thesis by auto
  next
    case False
    then have "snd (cleanupLoop cs now idle (r # rs) act)
             = snd (cleanupLoop cs now idle rs (act @ [r]))"
      by auto
    with b show ?thesis by auto
  qed
qed

lemma cleanupEntry_inv:
  assumes inv: "poolInv q" and e: "entryOk q e"
  shows "poolInv (cleanupEntry now q e)"
    and "nextArray q \<le> nextArray (cleanupEntry now q e)"
    and "nextConn (cleanupEntry now q e) = nextConn q"
    and "maxConnectionsPerPrinter (cleanupEntry now q e) = maxConnectionsPerPrinter q"
    and "\<And>a. a < nextArray q \<Longrightarrow> arrays (cleanupEntry now q e) a = arrays q a"
proof -
  let ?res = "cleanupLoop (conns q) now (poolMaxIdleTime q) (arrays q (snd e)) []"
  have len: "length (snd ?res) \<le> length (arrays q (snd e))"
    using cleanupLoop_length [of "conns q" now "poolMaxIdleTime q" "arrays q (snd e)" "[]"] by simp
  have sub: "set (snd ?res) \<subseteq> set (arrays q (snd e))"
    using cleanupLoop_set [of "conns q" now "poolMaxIdleTime q" "arrays q (snd e)" "[]"] by simp
  show "poolInv (cleanupEntry now q e)"
  proof (cases "snd ?res = []")
    case True
    have "entryOk (cleanupEntry now q e) x" if "x \<in> set (pools (cleanupEntry now q e))" for x
    proof -
      from that True have "x \<in> set (pools q)"
        using set_delete_subset [of "fst e" "pools q"] by (auto simp: cleanupEntry_def Let_def)
      with inv have "entryOk q x" by (simp add: poolInv_def)
      then show ?thesis using True by (simp add: cleanupEntry_def Let_def entryOk_def)
    qed
    then show ?thesis by (simp add: poolInv_def)
  next
    case False
    have "entryOk (cleanupEntry now q e) x" if "x \<in> set (pools (cleanupEntry now q e))" for x
    proof -
      from that False have "x = (fst e, nextArray q) \<or> x \<in> set (pools q)"
        using set_update_subset [of "fst e" "nextArray q" "pools q"]
        by (auto simp: cleanupEntry_def Let_def)
      then show ?thesis
      proof
        assume "x = (fst e, nextArray q)"
        then show ?thesis
          using False e len sub by (auto simp: cleanupEntry_def Let_def entryOk_def)
      next
        assume "x \<in> set (pools q)"
        with inv have "entryOk q x" by (simp add: poolInv_def)
        then show ?thesis
          using False by (auto simp: cleanupEntry_def Let_def entryOk_def)
      qed
    qed
    then show ?thesis by (simp add: poolInv_def)
  qed
  show "nextArray q \<le> nextArray (cleanupEntry now q e)"
    by (simp add: cleanupEntry_def Let_def)
  show "nextConn (cleanupEntry now q e) = nextConn q"
    by (simp add: cleanupEntry_def Let_def)
  show "maxConnectionsPerPrinter (cleanupEntry now q e) = maxConnectionsPerPrinter q"
    by (simp add: cleanupEntry_def Let_def)
  show "\<And>a. a < nextArray q \<Longrightarrow> arrays (cleanupEntry now q e) a = arrays q a"
    by (simp add: cleanupEntry_def Let_def)
qed

lemma cleanup_fold_inv:
  "poolInv q \<Longrightarrow> \<forall>e \<in> set es. entryOk q e \<Longrightarrow> poolInv (foldl (cleanupEntry now) q es)"
proof (induction es arbitrary: q)
  case Nil
  then show ?case by simp
next
  case (Cons e es)
  from Cons.prems have e: "entryOk q e" by simp
  note step = cleanupEntry_inv [OF Cons.prems(1) e, where now = now]
  have "entryOk (cleanupEntry now q e) x" if "x \<in> set es" for x
  proof -
    from that Cons.prems have x: "entryOk q x" by simp
    then have "arrays (cleanupEntry now q e) (snd x) = arrays q (snd x)"
      using step(5) by (simp add: entryOk_def)
    with x step(2,3,4) show ?thesis by (simp add: entryOk_def)
  qed
  with Cons.IH [OF step(1)] show ?case by simp
qed

lemma cleanup_inv: "poolInv p \<Longrightarrow> poolInv (cleanupIdleConnections p now)"
  unfolding cleanupIdleConnections_def
  by (rule cleanup_fold_inv) (simp_all add: poolInv_def)

lemma poolStep_inv: "poolInv p \<Longrightarrow> poolInv (poolStep p act)"
  by (cases act)
     (simp_all add: acquire_begin_inv acquire_settle_inv cleanup_inv releaseRef_def
        setConnection_def wait_interval_def markRef_def split: option.splits)

lemma poolRun_inv: "poolInv p \<Longrightarrow> poolInv (foldl poolStep p acts)"
  by (induction acts arbitrary: p) (simp_all add: poolStep_inv)


lemma cleanup_fold_max:
  "maxConnectionsPerPrinter (foldl (cleanupEntry now) q es) = maxConnectionsPerPrinter q"
  by (induction es arbitrary: q) (simp_all add: cleanupEntry_def Let_def)

lemma poolStep_max: "maxConnectionsPerPrinter (poolStep p act) = maxConnectionsPerPrinter p"
  by (cases act)
     (simp_all add: acquire_begin_def acquire_settle_def getPool_def cleanupIdleConnections_def
        cleanup_fold_max releaseRef_def setConnection_def wait_interval_def markRef_def Let_def
        split: option.splits)

lemma poolRun_max: "maxConnectionsPerPrinter (foldl poolStep p acts) = maxConnectionsPerPrinter p"
  by (induction acts arbitrary: p) (simp_all add: poolStep_max)


lemma pool_cap_invariant:
  assumes "poolInv p"
  shows "\<forall>e \<in> set (pools (foldl poolStep p acts)).
           length (arrays (foldl poolStep p acts) (snd e)) \<le> maxConnectionsPerPrinter p"
proof -
  have "poolInv (foldl poolStep p acts)" by (rule poolRun_inv [OF assms])
  then show ?thesis
    using poolRun_max [of p acts] by (simp add: poolInv_def entryOk_def)
qed

text \<open>
  Claim C5: the connections of an entry never exceed the cap, and a connection whose
  connect fails during the acquisition is not in the entry and does not count against the
  cap. The removal after a failed connect acts on the array that the acquire captured.
  When a cleanup has replaced the array of the entry while the connect was pending, the
  failed connection stays in the entry and is counted by \<open>getStats\<close>: here, under a cap of
  one, every later acquire for the printer finds the entry saturated.
\<close>

theorem failed_connect_after_cleanup_stays:
  "snd (acquire_begin pool1 ipA portA 0 openSocket) = Connecting 0 0
   \<and> snd (acquire_settle (foldl poolStep pool1 [Acquire ipA portA 0 openSocket, Cleanup 1000])
            0 0 TimedOut 5000) = Inl (ConnectionTimeout ipA portA)
   \<and> pools (foldl poolStep pool1
         [Acquire ipA portA 0 openSocket, Cleanup 1000, Settle 0 0 TimedOut 5000])
       = [((ipA, portA), 1)]
   \<and> arrays (foldl poolStep pool1
         [Acquire ipA portA 0 openSocket, Cleanup 1000, Settle 0 0 TimedOut 5000]) 1 = [0]
   \<and> totalConnections (getStats (foldl poolStep pool1
         [Acquire ipA portA 0 openSocket, Cleanup 1000, Settle 0 0 TimedOut 5000])) = 1
   \<and> snd (acquire_begin (foldl poolStep pool1
         [Acquire ipA portA 0 openSocket, Cleanup 1000, Settle 0 0 TimedOut 5000])
         ipA portA 6000 openSocket) = Saturated 1"
  by (simp add: pool1_def scen_defs run_defs openSocket_def Let_def getStats_def
      cleanupIdleConnections_def cleanupEntry_def)

end
